theory Spec2Isabelle
  imports Main
begin

section \<open>ConversationSection: the session orchestration of the conversation component\<close>

text \<open>
  The component of \<^verbatim>\<open>src/components/Conversation/ConversationSection.tsx\<close> is a React
  function component. Its state variables and refs are the fields of the record
  \<open>state\<close> below. Every handler is an \<^verbatim>\<open>async\<close> function: it runs to its next
  \<^verbatim>\<open>await\<close>, gives control back, and is resumed when the awaited call settles. A handler
  is therefore modelled as one function per synchronous segment; the calls it awaits are
  kept in the field \<open>pending\<close>, each with the values the handler's closure holds, and
  an event \<open>Settle\<close> resumes one of them with the response of the collaborator. All other
  events (button clicks, host pushes, the keyboard signal, timer ticks) may come between two
  segments of a handler, as in the single cooperative execution context of the source.
\<close>

subsection \<open>Data model\<close>

datatype speaker = interviewer | interviewee

text \<open>\<^verbatim>\<open>interface ConversationMessage\<close>; the fields carry the prefix \<open>msg_\<close>
  since \<open>id\<close> is the identity function of HOL.\<close>

record ConversationMessage =
  msg_id :: string
  msg_speaker :: speaker
  msg_text :: string
  msg_timestamp :: nat
  msg_edited :: "bool option"

record AISuggestion =
  suggestions :: "string list"
  reasoning :: string

text \<open>The class \<^verbatim>\<open>AudioRecorder\<close> is imported from \<^verbatim>\<open>utils/audioRecorder\<close>; the
  component only allocates it once and calls its three methods. What the methods answer
  is given by the environment (the responses and the argument of the keyboard signal).\<close>

datatype AudioRecorder = NewAudioRecorder

text \<open>The state variables a handler reads directly (not through a functional update or
  a ref) are fixed when the component function runs: a handler sees the values of the
  render that created it.\<close>

record closure =
  c_isRecording :: bool
  c_currentSpeaker :: speaker

text \<open>The calls to collaborators, in the order they are issued.\<close>

datatype call =
    GetConversation
  | StartRecording
  | StopRecording
  | TranscribeAudio
  | AddConversationMessage string speaker
  | GetAnswerSuggestions string
  | ToggleSpeaker

text \<open>A suspended handler: the awaited call, and what the rest of the handler still reads
  from its closure.\<close>

datatype pending =
    AwaitGetConversation
  | AwaitStartRecording
  | AwaitStopRecording closure
  | AwaitTranscribe closure
  | AwaitAdd closure string
  | AwaitSuggestions
  | AwaitToggleSpeaker

text \<open>How an awaited call settles. \<open>Fulfilled\<close> is a value the handler does not
  inspect (\<^verbatim>\<open>void\<close>, or the audio blob); \<open>Rejected\<close> carries \<^verbatim>\<open>error.message\<close>.\<close>

datatype response =
    Fulfilled
  | Transcription bool "string option"
  | Suggestions bool "AISuggestion option"
  | Toggled bool speaker
  | Conversation bool "ConversationMessage list"
  | Rejected string

record state =
  messages :: "ConversationMessage list"
  isRecording :: bool
  currentSpeaker :: speaker
  aiSuggestions :: "AISuggestion option"
  isProcessing :: bool
  recordingDuration :: nat
  audioRecorderRef :: "AudioRecorder option"
  durationIntervalRef :: "nat option"
  intervals :: "nat list"
  nextInterval :: nat
  console :: "(string \<times> string) list"
  alerts :: "string list"
  calls :: "call list"
  pending :: "pending list"

text \<open>The state of the first render: the arguments of \<^verbatim>\<open>useState\<close> and
  \<^verbatim>\<open>useRef\<close>. \<open>intervals\<close> are the running \<^verbatim>\<open>setInterval\<close> timers, \<open>console\<close>
  the arguments of \<^verbatim>\<open>console.error\<close>, \<open>alerts\<close> those of \<^verbatim>\<open>alert\<close>.\<close>

definition initial_state :: state where
  "initial_state =
     \<lparr>messages = [], isRecording = False, currentSpeaker = interviewee,
      aiSuggestions = None, isProcessing = False, recordingDuration = 0,
      audioRecorderRef = None, durationIntervalRef = None,
      intervals = [], nextInterval = 1, console = [], alerts = [],
      calls = [], pending = []\<rparr>"

definition render_closure :: "state \<Rightarrow> closure" where
  "render_closure s = \<lparr>c_isRecording = isRecording s, c_currentSpeaker = currentSpeaker s\<rparr>"

text \<open>The effect of \<^verbatim>\<open>useEffect(..., [])\<close> runs once, after the first render: the
  handlers it reaches are those of the first render.\<close>

definition mount_closure :: closure where
  "mount_closure = render_closure initial_state"

definition await :: "call \<Rightarrow> pending \<Rightarrow> state \<Rightarrow> state" where
  "await c p s = s\<lparr>calls := calls s @ [c], pending := pending s @ [p]\<rparr>"

definition or_default :: "string \<Rightarrow> string \<Rightarrow> string" where
  \<comment> \<open>\<^verbatim>\<open>error.message || fallback\<close>: the empty string is falsy\<close>
  "or_default message fallback = (if message = [] then fallback else message)"

subsection \<open>Host events (lines 64 to 80)\<close>

definition onConversationMessageAdded :: "ConversationMessage \<Rightarrow> state \<Rightarrow> state" where
  "onConversationMessageAdded message s = s\<lparr>messages := messages s @ [message]\<rparr>"

definition onSpeakerChanged :: "speaker \<Rightarrow> state \<Rightarrow> state" where
  "onSpeakerChanged sp s = s\<lparr>currentSpeaker := sp\<rparr>"

definition onConversationMessageUpdated :: "ConversationMessage \<Rightarrow> state \<Rightarrow> state" where
  "onConversationMessageUpdated message s =
     s\<lparr>messages := map (\<lambda>msg. if msg_id msg = msg_id message then message else msg) (messages s)\<rparr>"

definition onConversationCleared :: "state \<Rightarrow> state" where
  "onConversationCleared s = s\<lparr>messages := [], aiSuggestions := None\<rparr>"

subsection \<open>loadConversation (lines 110 to 120)\<close>

definition loadConversation :: "state \<Rightarrow> state" where
  "loadConversation s = await GetConversation AwaitGetConversation s"

fun loadConversation_resume :: "response \<Rightarrow> state \<Rightarrow> state" where
  "loadConversation_resume (Conversation success msgs) s =
     (if success then s\<lparr>messages := msgs\<rparr> else s)"
| "loadConversation_resume (Rejected e) s =
     s\<lparr>console := console s @ [(''Failed to load conversation:'', e)]\<rparr>"
| "loadConversation_resume _ s = s"

subsection \<open>handleStartRecording (lines 122 to 140)\<close>

definition handleStartRecording :: "state \<Rightarrow> state" where
  "handleStartRecording s =
     await StartRecording AwaitStartRecording
       (if audioRecorderRef s = None then s\<lparr>audioRecorderRef := Some NewAudioRecorder\<rparr> else s)"

fun handleStartRecording_resume :: "response \<Rightarrow> state \<Rightarrow> state" where
  "handleStartRecording_resume Fulfilled s =
     s\<lparr>isRecording := True, recordingDuration := 0,
       durationIntervalRef := Some (nextInterval s),
       intervals := intervals s @ [nextInterval s],
       nextInterval := Suc (nextInterval s)\<rparr>"
| "handleStartRecording_resume (Rejected e) s =
     s\<lparr>console := console s @ [(''Failed to start recording:'', e)],
       alerts := alerts s @
         [or_default e ''Failed to start recording. Please check microphone permissions.'']\<rparr>"
| "handleStartRecording_resume _ s = s"

subsection \<open>fetchAISuggestions (lines 184 to 194)\<close>

definition fetchAISuggestions :: "string \<Rightarrow> state \<Rightarrow> state" where
  "fetchAISuggestions question s = await (GetAnswerSuggestions question) AwaitSuggestions s"

fun fetchAISuggestions_resume :: "response \<Rightarrow> state \<Rightarrow> state" where
  "fetchAISuggestions_resume (Suggestions success sugg) s =
     (case sugg of
        Some g \<Rightarrow> if success then s\<lparr>aiSuggestions := Some g\<rparr> else s
      | None \<Rightarrow> s)"
| "fetchAISuggestions_resume (Rejected e) s =
     s\<lparr>console := console s @ [(''Failed to get AI suggestions:'', e)]\<rparr>"
| "fetchAISuggestions_resume _ s = s"

subsection \<open>handleStopRecording (lines 142 to 182)\<close>

definition clearDurationInterval :: "state \<Rightarrow> state" where
  "clearDurationInterval s =
     (case durationIntervalRef s of
        None \<Rightarrow> s
      | Some t \<Rightarrow> s\<lparr>intervals := removeAll t (intervals s), durationIntervalRef := None\<rparr>)"

definition handleStopRecording :: "closure \<Rightarrow> state \<Rightarrow> state" where
  "handleStopRecording c s =
     (if audioRecorderRef s = None \<or> \<not> c_isRecording c then s
      else await StopRecording (AwaitStopRecording c)
             ((clearDurationInterval (s\<lparr>isRecording := False\<rparr>))\<lparr>isProcessing := True\<rparr>))"

definition stop_catch :: "string \<Rightarrow> state \<Rightarrow> state" where
  "stop_catch e s =
     s\<lparr>console := console s @ [(''Failed to process recording:'', e)],
       alerts := alerts s @ [or_default e ''Failed to process recording'']\<rparr>"

definition stop_finally :: "state \<Rightarrow> state" where
  "stop_finally s = s\<lparr>isProcessing := False, recordingDuration := 0\<rparr>"

text \<open>After \<^verbatim>\<open>stopRecording()\<close> and \<^verbatim>\<open>audioBlob.arrayBuffer()\<close>: the handler does
  nothing between the two, so they are one suspension.\<close>

fun stop_after_capture :: "closure \<Rightarrow> response \<Rightarrow> state \<Rightarrow> state" where
  "stop_after_capture c Fulfilled s = await TranscribeAudio (AwaitTranscribe c) s"
| "stop_after_capture c (Rejected e) s = stop_finally (stop_catch e s)"
| "stop_after_capture c _ s = s"

fun stop_after_transcribe :: "closure \<Rightarrow> response \<Rightarrow> state \<Rightarrow> state" where
  "stop_after_transcribe c (Transcription success result) s =
     (case result of
        Some text \<Rightarrow>
          if success
          then await (AddConversationMessage text (c_currentSpeaker c)) (AwaitAdd c text) s
          else stop_finally s
      | None \<Rightarrow> stop_finally s)"
| "stop_after_transcribe c (Rejected e) s = stop_finally (stop_catch e s)"
| "stop_after_transcribe c _ s = s"

fun stop_after_add :: "closure \<Rightarrow> string \<Rightarrow> response \<Rightarrow> state \<Rightarrow> state" where
  "stop_after_add c text Fulfilled s =
     (if c_currentSpeaker c = interviewer then fetchAISuggestions text s
      else stop_finally (s\<lparr>aiSuggestions := None\<rparr>))"
| "stop_after_add c text (Rejected e) s = stop_finally (stop_catch e s)"
| "stop_after_add c text _ s = s"

definition stop_after_suggestions :: "response \<Rightarrow> state \<Rightarrow> state" where
  "stop_after_suggestions r s = stop_finally (fetchAISuggestions_resume r s)"

subsection \<open>handleToggleSpeaker (lines 196 to 206)\<close>

definition handleToggleSpeaker :: "state \<Rightarrow> state" where
  "handleToggleSpeaker s = await ToggleSpeaker AwaitToggleSpeaker s"

fun handleToggleSpeaker_resume :: "response \<Rightarrow> state \<Rightarrow> state" where
  "handleToggleSpeaker_resume (Toggled success sp) s =
     (if success then s\<lparr>currentSpeaker := sp, aiSuggestions := None\<rparr> else s)"
| "handleToggleSpeaker_resume (Rejected e) s =
     s\<lparr>console := console s @ [(''Failed to toggle speaker:'', e)]\<rparr>"
| "handleToggleSpeaker_resume _ s = s"

subsection \<open>handleToggleRecording (lines 83 to 92)\<close>

text \<open>The listener of the \<^verbatim>\<open>toggle-recording\<close> signal is created in the mount effect,
  so the \<^verbatim>\<open>handleStopRecording\<close> it calls is the one of the first render. The argument
  is what \<^verbatim>\<open>getIsRecording()\<close> answers when a recorder is allocated.\<close>

definition handleToggleRecording :: "bool \<Rightarrow> state \<Rightarrow> state" where
  "handleToggleRecording getIsRecording s =
     (let currentIsRecording =
            (case audioRecorderRef s of None \<Rightarrow> False | Some r \<Rightarrow> getIsRecording)
      in if currentIsRecording then handleStopRecording mount_closure s
         else handleStartRecording s)"

subsection \<open>The component as a transition system\<close>

fun accepts :: "pending \<Rightarrow> response \<Rightarrow> bool" where
  "accepts p (Rejected e) = True"
| "accepts AwaitGetConversation (Conversation b ms) = True"
| "accepts AwaitStartRecording Fulfilled = True"
| "accepts (AwaitStopRecording c) Fulfilled = True"
| "accepts (AwaitTranscribe c) (Transcription b t) = True"
| "accepts (AwaitAdd c t) Fulfilled = True"
| "accepts AwaitSuggestions (Suggestions b g) = True"
| "accepts AwaitToggleSpeaker (Toggled b sp) = True"
| "accepts p r = False"

primrec resume :: "pending \<Rightarrow> response \<Rightarrow> state \<Rightarrow> state" where
  "resume AwaitGetConversation r s = loadConversation_resume r s"
| "resume AwaitStartRecording r s = handleStartRecording_resume r s"
| "resume (AwaitStopRecording c) r s = stop_after_capture c r s"
| "resume (AwaitTranscribe c) r s = stop_after_transcribe c r s"
| "resume (AwaitAdd c text) r s = stop_after_add c text r s"
| "resume AwaitSuggestions r s = stop_after_suggestions r s"
| "resume AwaitToggleSpeaker r s = handleToggleSpeaker_resume r s"

definition drop_nth :: "nat \<Rightarrow> 'a list \<Rightarrow> 'a list" where
  "drop_nth i xs = take i xs @ drop (Suc i) xs"

datatype event =
    RecordButtonClick
  | SpeakerButtonClick
  | ToggleRecordingSignal bool
  | MessageAdded ConversationMessage
  | SpeakerChanged speaker
  | MessageUpdated ConversationMessage
  | ConversationCleared
  | IntervalTick nat
  | Settle nat response

text \<open>The two buttons (lines 225 to 243): the record button is disabled while
  \<^verbatim>\<open>isProcessing\<close> and calls stop or start according to \<^verbatim>\<open>isRecording\<close>; the speaker
  button is disabled while \<^verbatim>\<open>isRecording || isProcessing\<close>. A click reaches the handlers
  of the current render.\<close>

fun step :: "event \<Rightarrow> state \<Rightarrow> state" where
  "step RecordButtonClick s =
     (if isProcessing s then s
      else if isRecording s then handleStopRecording (render_closure s) s
      else handleStartRecording s)"
| "step SpeakerButtonClick s =
     (if isRecording s \<or> isProcessing s then s else handleToggleSpeaker s)"
| "step (ToggleRecordingSignal r) s = handleToggleRecording r s"
| "step (MessageAdded m) s = onConversationMessageAdded m s"
| "step (SpeakerChanged sp) s = onSpeakerChanged sp s"
| "step (MessageUpdated m) s = onConversationMessageUpdated m s"
| "step ConversationCleared s = onConversationCleared s"
| "step (IntervalTick t) s =
     (if t \<in> set (intervals s) then s\<lparr>recordingDuration := recordingDuration s + 1\<rparr> else s)"
| "step (Settle i r) s =
     (if i < length (pending s) \<and> accepts (pending s ! i) r
      then resume (pending s ! i) r (s\<lparr>pending := drop_nth i (pending s)\<rparr>)
      else s)"

fun run :: "event list \<Rightarrow> state \<Rightarrow> state" where
  "run [] s = s"
| "run (e # es) s = run es (step e s)"

text \<open>Activation: the mount effect calls \<^verbatim>\<open>loadConversation()\<close>.\<close>

definition mounted :: state where
  "mounted = loadConversation initial_state"

subsection \<open>Concrete values used in the examples\<close>

definition g1 :: AISuggestion where
  "g1 = \<lparr>suggestions = [''Describe the retry policy''], reasoning = ''failure handling''\<rparr>"

definition q1 :: ConversationMessage where
  "q1 = \<lparr>msg_id = ''m1'', msg_speaker = interviewer, msg_text = ''How do you handle failures?'',
          msg_timestamp = 1000, msg_edited = None\<rparr>"

definition a1 :: ConversationMessage where
  "a1 = \<lparr>msg_id = ''m2'', msg_speaker = interviewee, msg_text = ''I use retries.'',
          msg_timestamp = 2000, msg_edited = None\<rparr>"

definition a1_edited :: ConversationMessage where
  "a1_edited = a1\<lparr>msg_text := ''I use retries with backoff.'', msg_edited := Some True\<rparr>"

definition unique_ids :: "state \<Rightarrow> bool" where
  "unique_ids s = distinct (map msg_id (messages s))"

text \<open>What a failing suggestion request leaves on the console: a rejected call is caught
  and passed to \<^verbatim>\<open>console.error\<close>; a response without \<^verbatim>\<open>success\<close> is dropped.\<close>

fun suggestion_failure :: "response \<Rightarrow> bool" where
  "suggestion_failure (Rejected e) = True"
| "suggestion_failure (Suggestions success g) = (\<not> success)"
| "suggestion_failure _ = False"

fun failure_log :: "response \<Rightarrow> (string \<times> string) list" where
  "failure_log (Rejected e) = [(''Failed to get AI suggestions:'', e)]"
| "failure_log _ = []"

text \<open>Example sessions. \<open>loaded\<close>: the initial load answers with an empty log.
  \<open>q1_requested\<close>: the user makes the interviewer the active speaker, records, stops with
  the record button; the recording is transcribed as the question of \<open>q1\<close>, the message is
  added and pushed back, and the suggestion request for it is outstanding.
  \<open>q1_displayed\<close>: the request has answered and its suggestion is displayed.\<close>

definition loaded :: "event list" where
  "loaded = [Settle 0 (Conversation True [])]"

definition q1_requested :: "event list" where
  "q1_requested = loaded @
     [SpeakerButtonClick, Settle 0 (Toggled True interviewer),
      RecordButtonClick, Settle 0 Fulfilled, IntervalTick 1,
      RecordButtonClick, Settle 0 Fulfilled,
      Settle 0 (Transcription True (Some ''How do you handle failures?'')),
      Settle 0 Fulfilled, MessageAdded q1]"

definition q1_displayed :: "event list" where
  "q1_displayed = q1_requested @ [Settle 0 (Suggestions True (Some g1))]"

text \<open>\<open>q1_race\<close>: as \<open>q1_requested\<close>, but the user has clicked the speaker button a second
  time before recording and the host has not yet answered that call.\<close>

definition q1_race :: "event list" where
  "q1_race = loaded @
     [SpeakerButtonClick, Settle 0 (Toggled True interviewer), SpeakerButtonClick,
      RecordButtonClick, Settle 1 Fulfilled,
      RecordButtonClick, Settle 1 Fulfilled,
      Settle 1 (Transcription True (Some ''How do you handle failures?'')),
      Settle 1 Fulfilled, MessageAdded q1]"

text \<open>\<open>transcribing\<close>: a recording was started and stopped with the record button; its
  transcription is outstanding.\<close>

definition transcribing :: "event list" where
  "transcribing = loaded @
     [RecordButtonClick, Settle 0 Fulfilled, RecordButtonClick, Settle 0 Fulfilled]"

text \<open>The continuations of \<^verbatim>\<open>handleStopRecording\<close>, and how many awaits each has at
  most before the handler returns.\<close>

fun stop_item :: "pending \<Rightarrow> bool" where
  "stop_item (AwaitStopRecording c) = True"
| "stop_item (AwaitTranscribe c) = True"
| "stop_item (AwaitAdd c t) = True"
| "stop_item AwaitSuggestions = True"
| "stop_item _ = False"

fun awaits_left :: "pending \<Rightarrow> nat" where
  "awaits_left (AwaitStopRecording c) = 4"
| "awaits_left (AwaitTranscribe c) = 3"
| "awaits_left (AwaitAdd c t) = 2"
| "awaits_left AwaitSuggestions = 1"
| "awaits_left _ = 0"

text \<open>\<open>recording\<close>: a recording started with the record button runs since one tick;
  \<open>recording_by_signal\<close>: the same, started with the keyboard signal.\<close>

definition recording :: "event list" where
  "recording = loaded @ [RecordButtonClick, Settle 0 Fulfilled, IntervalTick 1]"

definition recording_by_signal :: "event list" where
  "recording_by_signal = loaded @ [ToggleRecordingSignal False, Settle 0 Fulfilled, IntervalTick 1]"

text \<open>\<open>interviewer_recording_by_signal\<close>: the user has made the interviewer the active
  speaker and started a recording with the keyboard signal; it runs since one tick.\<close>

definition interviewer_recording_by_signal :: "event list" where
  "interviewer_recording_by_signal = loaded @
     [SpeakerButtonClick, Settle 0 (Toggled True interviewer),
      ToggleRecordingSignal False, Settle 0 Fulfilled, IntervalTick 1]"

text \<open>Following one suspended call through a run. \<open>settles e s\<close> is the position of
  the suspended call that the event \<open>e\<close> resumes in \<open>s\<close>, if it resumes one. Resuming the
  call at position \<open>j\<close> takes it out of the list, so a call behind it moves up by one
  (\<open>shift\<close>); new calls are appended at the end. \<open>follow es k s\<close> runs the events \<open>es\<close>
  from \<open>s\<close> and gives the final position of the call that is at position \<open>k\<close> in \<open>s\<close>
  together with the final state, or \<open>None\<close> when one of the events resumes that very call:
  the events of \<open>es\<close> are then the events that come between two segments of its handler.\<close>

fun settles :: "event \<Rightarrow> state \<Rightarrow> nat option" where
  "settles (Settle j r) s =
     (if j < length (pending s) \<and> accepts (pending s ! j) r then Some j else None)"
| "settles e s = None"

fun shift :: "nat option \<Rightarrow> nat \<Rightarrow> nat" where
  "shift None k = k"
| "shift (Some j) k = (if j < k then k - 1 else k)"

fun follow :: "event list \<Rightarrow> nat \<Rightarrow> state \<Rightarrow> (nat \<times> state) option" where
  "follow [] k s = Some (k, s)"
| "follow (e # es) k s =
     (if settles e s = Some k then None
      else follow es (shift (settles e s) k) (step e s))"

section \<open>Properties\<close>

lemmas handler_defs =
  await_def or_default_def onConversationMessageAdded_def onSpeakerChanged_def
  onConversationMessageUpdated_def onConversationCleared_def loadConversation_def
  handleStartRecording_def fetchAISuggestions_def clearDurationInterval_def
  handleStopRecording_def stop_catch_def stop_finally_def stop_after_suggestions_def
  handleToggleSpeaker_def handleToggleRecording_def render_closure_def mount_closure_def
  initial_state_def mounted_def drop_nth_def

lemmas example_defs =
  loaded_def q1_requested_def q1_displayed_def q1_race_def transcribing_def
  recording_def recording_by_signal_def interviewer_recording_by_signal_def g1_def q1_def a1_def

lemma run_append: "run (es @ fs) s = run fs (run es s)"
  by (induction es arbitrary: s) simp_all

subsection \<open>The conversation log\<close>

lemma updated_ids: "map msg_id (messages (onConversationMessageUpdated m s)) = map msg_id (messages s)"
  by (simp add: onConversationMessageUpdated_def)

lemma updated_absent:
  "msg_id m \<notin> msg_id ` set xs \<Longrightarrow> map (\<lambda>msg. if msg_id msg = msg_id m then m else msg) xs = xs"
  by (induction xs) auto

text \<open>
  C10: For every message-updated event carrying a message \<open>m\<close>, the handler keeps the
  length and the order of the log (the identifiers stay where they were), leaves every
  entry whose identifier differs from that of \<open>m\<close> as it was, puts \<open>m\<close> in the place of
  every entry that has its identifier, and, when no entry has the identifier of \<open>m\<close>,
  leaves the whole state as it was: the update is dropped, never appended.
\<close>

theorem message_updated_frame:
  "length (messages (onConversationMessageUpdated m s)) = length (messages s)
   \<and> map msg_id (messages (onConversationMessageUpdated m s)) = map msg_id (messages s)
   \<and> (\<forall>i < length (messages s).
        messages (onConversationMessageUpdated m s) ! i =
          (if msg_id (messages s ! i) = msg_id m then m else messages s ! i))
   \<and> (msg_id m \<notin> msg_id ` set (messages s) \<longrightarrow> onConversationMessageUpdated m s = s)"
proof -
  have "msg_id m \<notin> msg_id ` set (messages s) \<Longrightarrow> onConversationMessageUpdated m s = s"
    using updated_absent [of m "messages s"] by (simp add: onConversationMessageUpdated_def)
  then show ?thesis
    using updated_ids [of m s] by (simp add: onConversationMessageUpdated_def)
qed

theorem message_updated_frame_witness:
  "messages (onConversationMessageUpdated a1_edited (initial_state\<lparr>messages := [q1, a1]\<rparr>)) ! 0 = q1
   \<and> messages (onConversationMessageUpdated a1_edited (initial_state\<lparr>messages := [q1, a1]\<rparr>)) ! 1 = a1_edited
   \<and> length (messages (onConversationMessageUpdated a1_edited (initial_state\<lparr>messages := [q1, a1]\<rparr>))) = 2
   \<and> onConversationMessageUpdated a1 (initial_state\<lparr>messages := [q1]\<rparr>) = initial_state\<lparr>messages := [q1]\<rparr>"
  using message_updated_frame [of a1_edited "initial_state\<lparr>messages := [q1, a1]\<rparr>"]
    message_updated_frame [of a1 "initial_state\<lparr>messages := [q1]\<rparr>"]
  by (simp add: q1_def a1_def a1_edited_def initial_state_def)

text \<open>
  C9, as the claim states it, fails: a message-added event whose identifier is already in
  the log is appended all the same, and the log then holds the identifier twice.
\<close>

theorem duplicate_added_counterexample:
  "unique_ids (run [Settle 0 (Conversation True []), MessageAdded q1] mounted)
   \<and> messages (run [Settle 0 (Conversation True []), MessageAdded q1, MessageAdded q1] mounted) = [q1, q1]
   \<and> \<not> unique_ids (run [Settle 0 (Conversation True []), MessageAdded q1, MessageAdded q1] mounted)"
  by (simp add: handler_defs unique_ids_def q1_def)

text \<open>
  C9, amended: identifier uniqueness is preserved by message-updated and by clear; a
  message-added event preserves it exactly when the identifier delivered is not yet in
  the log (the handler appends without looking); the initial load installs the list of
  the host as it is, so the log is unique afterwards exactly when that list is.
\<close>

theorem unique_ids_preserved:
  "(unique_ids s \<longrightarrow> unique_ids (onConversationMessageUpdated m s))
   \<and> unique_ids (onConversationCleared s)
   \<and> (unique_ids (onConversationMessageAdded m s) \<longleftrightarrow>
        unique_ids s \<and> msg_id m \<notin> msg_id ` set (messages s))
   \<and> (unique_ids (loadConversation_resume (Conversation True ms) s) \<longleftrightarrow> distinct (map msg_id ms))
   \<and> (unique_ids s \<longrightarrow> unique_ids (loadConversation_resume (Conversation False ms) s))
   \<and> (unique_ids s \<longrightarrow> unique_ids (loadConversation_resume (Rejected e) s))"
  using updated_ids [of m s]
  by (auto simp add: unique_ids_def onConversationCleared_def onConversationMessageAdded_def)

theorem unique_ids_preserved_witness:
  "unique_ids (initial_state\<lparr>messages := [q1, a1]\<rparr>)
   \<and> unique_ids (onConversationMessageUpdated a1_edited (initial_state\<lparr>messages := [q1, a1]\<rparr>))
   \<and> unique_ids (onConversationMessageAdded a1 (initial_state\<lparr>messages := [q1]\<rparr>))
   \<and> unique_ids (loadConversation_resume (Conversation True [q1, a1]) initial_state)"
proof -
  have u: "unique_ids (initial_state\<lparr>messages := [q1, a1]\<rparr>)"
    and v: "unique_ids (initial_state\<lparr>messages := [q1]\<rparr>)"
    and w: "msg_id a1 \<notin> msg_id ` set (messages (initial_state\<lparr>messages := [q1]\<rparr>))"
    and d: "distinct (map msg_id [q1, a1])"
    by (simp_all add: unique_ids_def q1_def a1_def initial_state_def)
  show ?thesis
    using u v w d
      unique_ids_preserved [of "initial_state\<lparr>messages := [q1, a1]\<rparr>" a1_edited "[q1, a1]"]
      unique_ids_preserved [of "initial_state\<lparr>messages := [q1]\<rparr>" a1 "[q1, a1]"]
      unique_ids_preserved [of initial_state a1 "[q1, a1]"]
    by blast
qed

text \<open>No segment of any handler but the continuation of \<^verbatim>\<open>loadConversation\<close>
  calls \<^verbatim>\<open>setMessages\<close>.\<close>

lemma resume_messages:
  "p \<noteq> AwaitGetConversation \<Longrightarrow> messages (resume p r s) = messages s"
  by (cases p; cases r) (simp_all add: handler_defs split: option.splits)

lemma stop_messages: "messages (handleStopRecording c s) = messages s"
  by (simp add: handler_defs split: option.splits)

lemma start_messages: "messages (handleStartRecording s) = messages s"
  by (simp add: handler_defs)

text \<open>
  C7: On the path that appends a transcribed message the component never changes its
  local log: no segment of \<^verbatim>\<open>handleStopRecording\<close> (nor of any other handler that awaits
  a call, the initial load apart) touches \<open>messages\<close>, so when
  \<^verbatim>\<open>addConversationMessage\<close> is fulfilled the log is what it was; an event grows the
  log only if it is a message-added push (which appends exactly the message delivered)
  or the result of the initial load.
\<close>

theorem log_grows_only_by_push:
  "messages (handleStopRecording c s) = messages s
   \<and> (p \<noteq> AwaitGetConversation \<longrightarrow> messages (resume p r s) = messages s)
   \<and> messages (stop_after_add c text Fulfilled s) = messages s
   \<and> messages (onConversationMessageAdded m s) = messages s @ [m]
   \<and> (length (messages s) < length (messages (step e s)) \<longrightarrow>
        (\<exists>m. e = MessageAdded m) \<or>
        (\<exists>i ms. e = Settle i (Conversation True ms) \<and> i < length (pending s)
                 \<and> pending s ! i = AwaitGetConversation))"
proof -
  have grow: "(\<exists>m. e = MessageAdded m) \<or>
        (\<exists>i ms. e = Settle i (Conversation True ms) \<and> i < length (pending s)
                 \<and> pending s ! i = AwaitGetConversation)"
    if g: "length (messages s) < length (messages (step e s))"
  proof (cases e)
    case (Settle i r)
    from g Settle have i: "i < length (pending s)" and a: "accepts (pending s ! i) r"
      by (auto split: if_splits)
    have p: "pending s ! i = AwaitGetConversation"
    proof (rule ccontr)
      assume "pending s ! i \<noteq> AwaitGetConversation"
      then have "messages (step e s) = messages s"
        using Settle i a resume_messages [of "pending s ! i" r] by simp
      with g show False by simp
    qed
    from g Settle i a p obtain ms where "r = Conversation True ms"
      by (cases r) (auto split: if_splits)
    with Settle i p show ?thesis by simp
  next
    case RecordButtonClick
    with g show ?thesis using stop_messages start_messages by (simp split: if_splits)
  next
    case (ToggleRecordingSignal b)
    with g show ?thesis
      using stop_messages start_messages by (simp add: handleToggleRecording_def Let_def split: if_splits)
  qed (use g in \<open>simp_all add: handler_defs split: if_splits\<close>)
  have add: "messages (stop_after_add c text Fulfilled s) = messages s"
    by (simp add: handler_defs)
  show ?thesis
    using grow add stop_messages [of c s] resume_messages [of p r s]
    by (simp add: onConversationMessageAdded_def)
qed

theorem log_grows_only_by_push_witness:
  "messages (resume (AwaitAdd (render_closure initial_state) ''I use retries.'') Fulfilled
      (initial_state\<lparr>messages := [q1]\<rparr>)) = [q1]
   \<and> messages (step (MessageAdded a1) (initial_state\<lparr>messages := [q1]\<rparr>)) = [q1, a1]"
  using log_grows_only_by_push
    [of "render_closure initial_state" "initial_state\<lparr>messages := [q1]\<rparr>"
        "AwaitAdd (render_closure initial_state) ''I use retries.''" Fulfilled
        "''I use retries.''" a1 "MessageAdded a1"]
  by (simp add: initial_state_def)

subsection \<open>Suggestion requests\<close>

text \<open>
  C8, as the claim states it, fails in one part: not every failing request is logged.
  The request for \<open>q1\<close> is outstanding and the host answers it without success; the
  reply is dropped (lines 186 to 189 have no other branch) and nothing is written to the
  console.
\<close>

theorem unsuccessful_reply_counterexample:
  "suggestion_failure (Suggestions False None)
   \<and> pending (run q1_requested mounted) = [AwaitSuggestions]
   \<and> console (run q1_requested mounted) = []
   \<and> console (run (q1_requested @ [Settle 0 (Suggestions False None)]) mounted) = []
   \<and> alerts (run (q1_requested @ [Settle 0 (Suggestions False None)]) mounted) = []"
  by (simp add: handler_defs example_defs)

text \<open>
  C8, amended: A failing suggestion request (the call is rejected, or its response has no
  \<^verbatim>\<open>success\<close>) changes nothing but the console: a rejected call adds one
  \<^verbatim>\<open>console.error\<close> entry, a response without success adds none; no \<^verbatim>\<open>alert\<close> is
  raised, and the recording flag, the processing flag, the duration, the active speaker,
  the log and the displayed suggestion are what they were. The stop handler that awaited
  the request then runs its \<^verbatim>\<open>finally\<close> block as on every other path.
\<close>

theorem suggestion_failure_absorbed:
  "suggestion_failure r \<longrightarrow>
     fetchAISuggestions_resume r s = s\<lparr>console := console s @ failure_log r\<rparr>
     \<and> alerts (fetchAISuggestions_resume r s) = alerts s
     \<and> isRecording (fetchAISuggestions_resume r s) = isRecording s
     \<and> isProcessing (fetchAISuggestions_resume r s) = isProcessing s
     \<and> recordingDuration (fetchAISuggestions_resume r s) = recordingDuration s
     \<and> currentSpeaker (fetchAISuggestions_resume r s) = currentSpeaker s
     \<and> messages (fetchAISuggestions_resume r s) = messages s
     \<and> aiSuggestions (fetchAISuggestions_resume r s) = aiSuggestions s
     \<and> stop_after_suggestions r s = (stop_finally s)\<lparr>console := console s @ failure_log r\<rparr>
     \<and> alerts (stop_after_suggestions r s) = alerts s"
  by (cases r) (simp_all add: stop_after_suggestions_def stop_finally_def split: option.splits)

theorem suggestion_failure_absorbed_witness:
  "fetchAISuggestions_resume (Rejected ''timeout'') (mounted\<lparr>aiSuggestions := Some g1\<rparr>)
     = mounted\<lparr>aiSuggestions := Some g1, console := [(''Failed to get AI suggestions:'', ''timeout'')]\<rparr>
   \<and> fetchAISuggestions_resume (Suggestions False None) (mounted\<lparr>aiSuggestions := Some g1\<rparr>)
     = mounted\<lparr>aiSuggestions := Some g1\<rparr>
   \<and> alerts (fetchAISuggestions_resume (Rejected ''timeout'') (mounted\<lparr>aiSuggestions := Some g1\<rparr>)) = []"
  using suggestion_failure_absorbed [of "Rejected ''timeout''" "mounted\<lparr>aiSuggestions := Some g1\<rparr>"]
    suggestion_failure_absorbed [of "Suggestions False None" "mounted\<lparr>aiSuggestions := Some g1\<rparr>"]
  by (simp add: handler_defs)

text \<open>
  C1, as the claim states it, fails. The request for \<open>q1\<close> is outstanding; then (first
  session) the conversation is cleared, or (second session) the outstanding speaker toggle
  succeeds and an interviewee message is appended, or (third session) a new recording is
  started by the keyboard signal; the response of the request arrives afterwards and is
  displayed in all three.
\<close>

theorem stale_suggestion_counterexample:
  "pending (run q1_requested mounted) = [AwaitSuggestions]
   \<and> aiSuggestions (run (q1_requested @
        [ConversationCleared, Settle 0 (Suggestions True (Some g1))]) mounted) = Some g1
   \<and> currentSpeaker (run (q1_race @ [Settle 0 (Toggled True interviewee), MessageAdded a1]) mounted)
        = interviewee
   \<and> aiSuggestions (run (q1_race @
        [Settle 0 (Toggled True interviewee), MessageAdded a1,
         Settle 0 (Suggestions True (Some g1))]) mounted) = Some g1
   \<and> aiSuggestions (run (q1_requested @
        [ToggleRecordingSignal False, Settle 1 Fulfilled,
         Settle 0 (Suggestions True (Some g1))]) mounted) = Some g1"
  by (simp add: handler_defs example_defs)

text \<open>
  C1, amended: a successful response of a suggestion request (success, with suggestions)
  becomes the displayed suggestion when it arrives, whatever events came between the
  request and the response: the component keeps nothing that tells a stale response from
  a fresh one.
\<close>

theorem response_always_displayed:
  "i < length (pending (run evs s)) \<and> pending (run evs s) ! i = AwaitSuggestions \<longrightarrow>
     aiSuggestions (run (evs @ [Settle i (Suggestions True (Some g))]) s) = Some g"
  by (simp add: run_append stop_after_suggestions_def stop_finally_def)

theorem response_always_displayed_witness:
  "pending (run (q1_requested @ [ConversationCleared]) mounted) ! 0 = AwaitSuggestions
   \<and> aiSuggestions (run ((q1_requested @ [ConversationCleared]) @
        [Settle 0 (Suggestions True (Some g1))]) mounted) = Some g1"
proof -
  have p: "pending (run (q1_requested @ [ConversationCleared]) mounted) = [AwaitSuggestions]"
    by (simp add: handler_defs example_defs)
  then show ?thesis
    using response_always_displayed [of 0 "q1_requested @ [ConversationCleared]" mounted g1]
    by simp
qed

text \<open>
  C2, as the claim states it, fails for the start of a recording: the suggestion for \<open>q1\<close>
  is displayed, the user starts the next recording, and the suggestion is still displayed.
\<close>

theorem start_keeps_suggestion_counterexample:
  "aiSuggestions (run q1_displayed mounted) = Some g1
   \<and> isRecording (run (q1_displayed @ [RecordButtonClick, Settle 0 Fulfilled]) mounted)
   \<and> aiSuggestions (run (q1_displayed @ [RecordButtonClick, Settle 0 Fulfilled]) mounted) = Some g1"
  by (simp add: handler_defs example_defs)

text \<open>
  C2, amended: after a successful speaker toggle and after a conversation-cleared event
  the displayed suggestion is empty, in every state (whether or not a suggestion request
  is outstanding); the start of a recording leaves the displayed suggestion as it is, in
  both of its segments and whether the capture starts or fails.
\<close>

theorem suggestion_cleared_by:
  "aiSuggestions (handleToggleSpeaker_resume (Toggled True sp) s) = None
   \<and> aiSuggestions (onConversationCleared s) = None
   \<and> aiSuggestions (handleStartRecording s) = aiSuggestions s
   \<and> aiSuggestions (handleStartRecording_resume r s) = aiSuggestions s"
  by (cases r) (simp_all add: handler_defs)

theorem suggestion_cleared_by_witness:
  "aiSuggestions (handleToggleSpeaker_resume (Toggled True interviewee) (run q1_displayed mounted)) = None
   \<and> aiSuggestions (onConversationCleared (run q1_displayed mounted)) = None
   \<and> aiSuggestions (handleStartRecording_resume Fulfilled (handleStartRecording (run q1_displayed mounted)))
       = Some g1"
proof -
  have d: "aiSuggestions (run q1_displayed mounted) = Some g1"
    by (simp add: handler_defs example_defs)
  show ?thesis
    using d suggestion_cleared_by [of interviewee "run q1_displayed mounted" Fulfilled]
      suggestion_cleared_by [of interviewee "handleStartRecording (run q1_displayed mounted)" Fulfilled]
    by simp
qed

subsection \<open>Recording and speaker toggle\<close>

text \<open>The record button cannot start a recording outside Idle: it is disabled while
  the processing flag is set, and while the recording flag is set it calls stop.\<close>

lemma record_button_gate:
  "isProcessing s \<Longrightarrow> step RecordButtonClick s = s"
  "isRecording s \<Longrightarrow> \<not> isProcessing s \<Longrightarrow>
     step RecordButtonClick s = handleStopRecording (render_closure s) s"
  by simp_all

text \<open>
  C3 at the failing input: a recording is being transcribed (Processing), where a click
  on the record button does nothing. The keyboard signal arrives, the recorder reports
  that it is not capturing, and \<^verbatim>\<open>handleToggleRecording\<close> calls
  \<^verbatim>\<open>handleStartRecording\<close>: a second capture is requested, and when it starts the
  recording flag is set and a new timer runs while the processing flag is still set.
  When the outstanding transcription then answers, the \<^verbatim>\<open>finally\<close> block of the stop
  resets the duration of the recording that is running.
\<close>

theorem signal_start_while_processing:
  "isProcessing (run transcribing mounted)
   \<and> \<not> isRecording (run transcribing mounted)
   \<and> intervals (run transcribing mounted) = []
   \<and> step RecordButtonClick (run transcribing mounted) = run transcribing mounted
   \<and> calls (run (transcribing @ [ToggleRecordingSignal False]) mounted)
        = calls (run transcribing mounted) @ [StartRecording]
   \<and> isRecording (run (transcribing @ [ToggleRecordingSignal False, Settle 1 Fulfilled]) mounted)
   \<and> isProcessing (run (transcribing @ [ToggleRecordingSignal False, Settle 1 Fulfilled]) mounted)
   \<and> intervals (run (transcribing @ [ToggleRecordingSignal False, Settle 1 Fulfilled]) mounted) = [2]
   \<and> recordingDuration (run (transcribing @
        [ToggleRecordingSignal False, Settle 1 Fulfilled, IntervalTick 2]) mounted) = 1
   \<and> isRecording (run (transcribing @
        [ToggleRecordingSignal False, Settle 1 Fulfilled, IntervalTick 2,
         Settle 0 (Transcription False None)]) mounted)
   \<and> recordingDuration (run (transcribing @
        [ToggleRecordingSignal False, Settle 1 Fulfilled, IntervalTick 2,
         Settle 0 (Transcription False None)]) mounted) = 0"
  by (simp add: handler_defs example_defs)

text \<open>
  C4, as the claim states it, fails. The suggestion for \<open>q1\<close> is displayed and the next
  recording runs; \<^verbatim>\<open>handleToggleSpeaker\<close> called in that state asks the host, and when the
  host answers with success the active speaker changes and the suggestion is cleared.
\<close>

theorem toggle_while_recording_counterexample:
  "isRecording (run (q1_displayed @ [RecordButtonClick, Settle 0 Fulfilled]) mounted)
   \<and> currentSpeaker (run (q1_displayed @ [RecordButtonClick, Settle 0 Fulfilled]) mounted) = interviewer
   \<and> aiSuggestions (run (q1_displayed @ [RecordButtonClick, Settle 0 Fulfilled]) mounted) = Some g1
   \<and> currentSpeaker (run [Settle 0 (Toggled True interviewee)]
        (handleToggleSpeaker (run (q1_displayed @ [RecordButtonClick, Settle 0 Fulfilled]) mounted)))
        = interviewee
   \<and> aiSuggestions (run [Settle 0 (Toggled True interviewee)]
        (handleToggleSpeaker (run (q1_displayed @ [RecordButtonClick, Settle 0 Fulfilled]) mounted)))
        = None"
  by (simp add: handler_defs example_defs)

text \<open>
  C4, amended: \<^verbatim>\<open>handleToggleSpeaker\<close> has no check of the session state. In every state
  it asks the host to toggle, and when the host answers with success it adopts the
  speaker of the answer and clears the displayed suggestion. A toggle while Recording or
  Processing is excluded by the speaker button only, which is disabled while the recording
  flag or the processing flag is set.
\<close>

theorem toggle_has_no_guard:
  "calls (handleToggleSpeaker s) = calls s @ [ToggleSpeaker]
   \<and> pending (handleToggleSpeaker s) = pending s @ [AwaitToggleSpeaker]
   \<and> currentSpeaker (handleToggleSpeaker_resume (Toggled True sp) s) = sp
   \<and> aiSuggestions (handleToggleSpeaker_resume (Toggled True sp) s) = None
   \<and> (isRecording s \<or> isProcessing s \<longrightarrow> step SpeakerButtonClick s = s)
   \<and> (\<not> isRecording s \<and> \<not> isProcessing s \<longrightarrow> step SpeakerButtonClick s = handleToggleSpeaker s)"
  by (simp add: handleToggleSpeaker_def await_def)

theorem toggle_has_no_guard_witness:
  "isProcessing (run transcribing mounted)
   \<and> step SpeakerButtonClick (run transcribing mounted) = run transcribing mounted
   \<and> currentSpeaker (handleToggleSpeaker_resume (Toggled True interviewer) (run transcribing mounted))
        = interviewer"
proof -
  have p: "isProcessing (run transcribing mounted)"
    by (simp add: handler_defs example_defs)
  show ?thesis
    using p toggle_has_no_guard [of "run transcribing mounted" interviewer] by simp
qed

subsection \<open>The stop of a recording\<close>

text \<open>When the guard of \<^verbatim>\<open>handleStopRecording\<close> passes, the recording flag is cleared,
  the timer is cancelled and the processing flag is set.\<close>

lemma stop_invoked:
  assumes "audioRecorderRef s \<noteq> None" and "c_isRecording c"
  shows "\<not> isRecording (handleStopRecording c s) \<and> isProcessing (handleStopRecording c s)
     \<and> durationIntervalRef (handleStopRecording c s) = None
     \<and> pending (handleStopRecording c s) = pending s @ [AwaitStopRecording c]"
  using assms by (simp add: handler_defs split: option.splits)

text \<open>Every continuation of the handler either returns through the \<^verbatim>\<open>finally\<close> block
  (processing flag cleared, duration 0) or awaits the next call of the pipeline; the
  handler returns after at most four awaits, and no continuation sets the recording flag.\<close>

lemma stop_pipeline_step:
  assumes "stop_item p" and "accepts p r"
  shows "(\<not> isProcessing (resume p r s) \<and> recordingDuration (resume p r s) = 0
          \<and> pending (resume p r s) = pending s)
         \<or> (\<exists>q. stop_item q \<and> awaits_left q < awaits_left p
               \<and> pending (resume p r s) = pending s @ [q]
               \<and> isProcessing (resume p r s) = isProcessing s)"
  using assms
  by (cases p; cases r) (auto simp add: handler_defs split: option.splits)

lemma stop_pipeline_isRecording:
  "stop_item p \<Longrightarrow> isRecording (resume p r s) = isRecording s"
  by (cases p; cases r) (auto simp add: handler_defs split: option.splits)

text \<open>Stopped with the record button, the session is Idle with duration 0 when the
  handler has returned: when finalising the capture fails, when the transcription is
  rejected or has no success, when adding the message is rejected, and when the message
  is added.\<close>

lemma button_stop_reaches_idle:
  "run (recording @ [RecordButtonClick, Settle 0 (Rejected ''no data'')]) mounted
     = (run loaded mounted)
         \<lparr>audioRecorderRef := Some NewAudioRecorder, nextInterval := 2,
          console := [(''Failed to process recording:'', ''no data'')], alerts := [''no data''],
          calls := [GetConversation, StartRecording, StopRecording]\<rparr>"
  "run (recording @ [RecordButtonClick, Settle 0 Fulfilled, Settle 0 (Rejected [])]) mounted
     = (run loaded mounted)
         \<lparr>audioRecorderRef := Some NewAudioRecorder, nextInterval := 2,
          console := [(''Failed to process recording:'', [])],
          alerts := [''Failed to process recording''],
          calls := [GetConversation, StartRecording, StopRecording, TranscribeAudio]\<rparr>"
  "run (recording @ [RecordButtonClick, Settle 0 Fulfilled, Settle 0 (Transcription False None)]) mounted
     = (run loaded mounted)
         \<lparr>audioRecorderRef := Some NewAudioRecorder, nextInterval := 2,
          calls := [GetConversation, StartRecording, StopRecording, TranscribeAudio]\<rparr>"
  "run (recording @ [RecordButtonClick, Settle 0 Fulfilled,
        Settle 0 (Transcription True (Some ''I use retries.'')), Settle 0 (Rejected ''store'')]) mounted
     = (run loaded mounted)
         \<lparr>audioRecorderRef := Some NewAudioRecorder, nextInterval := 2,
          console := [(''Failed to process recording:'', ''store'')], alerts := [''store''],
          calls := [GetConversation, StartRecording, StopRecording, TranscribeAudio,
                    AddConversationMessage ''I use retries.'' interviewee]\<rparr>"
  "run (recording @ [RecordButtonClick, Settle 0 Fulfilled,
        Settle 0 (Transcription True (Some ''I use retries.'')), Settle 0 Fulfilled]) mounted
     = (run loaded mounted)
         \<lparr>audioRecorderRef := Some NewAudioRecorder, nextInterval := 2,
          calls := [GetConversation, StartRecording, StopRecording, TranscribeAudio,
                    AddConversationMessage ''I use retries.'' interviewee]\<rparr>"
  by (simp_all add: handler_defs example_defs)

text \<open>The handler of the keyboard signal calls the \<^verbatim>\<open>handleStopRecording\<close> of the first
  render, whose \<^verbatim>\<open>isRecording\<close> is \<^verbatim>\<open>false\<close>: that call returns at the guard in every
  state, so the signal either does nothing or starts a recording.\<close>

lemma signal_never_stops:
  "handleStopRecording mount_closure s = s"
  "step (ToggleRecordingSignal b) s = s \<or> step (ToggleRecordingSignal b) s = handleStartRecording s"
  by (simp_all add: handleToggleRecording_def handleStopRecording_def mount_closure_def
        render_closure_def initial_state_def Let_def)

text \<open>
  C5 at the failing input: a recording is started with the keyboard signal and runs since
  one tick; the signal arrives again while the recorder reports that it is capturing, so
  \<^verbatim>\<open>handleToggleRecording\<close> calls \<^verbatim>\<open>handleStopRecording\<close>. The call returns at its guard:
  nothing is awaited, the recorder is not asked to stop, and the session is left
  Recording, with its timer running and its duration not reset.
\<close>

theorem signal_stop_leaves_recording:
  "run (recording_by_signal @ [ToggleRecordingSignal True]) mounted = run recording_by_signal mounted
   \<and> isRecording (run (recording_by_signal @ [ToggleRecordingSignal True]) mounted)
   \<and> recordingDuration (run (recording_by_signal @ [ToggleRecordingSignal True]) mounted) = 1
   \<and> intervals (run (recording_by_signal @ [ToggleRecordingSignal True]) mounted) = [1]
   \<and> pending (run (recording_by_signal @ [ToggleRecordingSignal True]) mounted) = []
   \<and> calls (run (recording_by_signal @ [ToggleRecordingSignal True]) mounted)
        = [GetConversation, StartRecording]"
  by (simp add: handler_defs example_defs)

text \<open>An \<^verbatim>\<open>addConversationMessage\<close> call is issued by one place only, the continuation of
  the transcription, with the speaker of the closure of the stop that awaited it.\<close>

lemma add_call_origin:
  assumes "calls (step e s) = calls s @ [AddConversationMessage text sp]"
  shows "\<exists>i c. e = Settle i (Transcription True (Some text)) \<and> i < length (pending s)
           \<and> pending s ! i = AwaitTranscribe c \<and> sp = c_currentSpeaker c"
proof (cases e)
  case (Settle i r)
  with assms have i: "i < length (pending s)" and a: "accepts (pending s ! i) r"
    by (auto split: if_splits)
  from assms Settle i a show ?thesis
    by (cases "pending s ! i"; cases r) (auto simp add: handler_defs split: option.splits if_splits)
qed (use assms in \<open>auto simp add: handler_defs Let_def split: if_splits option.splits\<close>)

text \<open>Events never touch a suspended call they do not resume: it keeps its closure and
  only moves up when a call before it is resumed.\<close>

lemma resume_pending: "\<exists>new. pending (resume p r s) = pending s @ new"
  by (cases p; cases r) (auto simp add: handler_defs split: option.splits)

lemma drop_nth_other:
  assumes "j < length xs" and "k < length xs" and "j \<noteq> k"
  shows "(if j < k then k - 1 else k) < length (drop_nth j xs)
         \<and> drop_nth j xs ! (if j < k then k - 1 else k) = xs ! k"
  using assms by (auto simp add: drop_nth_def nth_append min_def)

lemma step_keeps_item:
  assumes "k < length (pending s)" and "settles e s \<noteq> Some k"
  shows "shift (settles e s) k < length (pending (step e s))
         \<and> pending (step e s) ! shift (settles e s) k = pending s ! k"
proof (cases "settles e s")
  case None
  have "\<exists>new. pending (step e s) = pending s @ new"
  proof (cases e)
    case (Settle j r)
    with None have "step e s = s" by (auto split: if_splits)
    then show ?thesis by simp
  qed (auto simp add: handler_defs Let_def split: option.splits)
  with None assms(1) show ?thesis by (auto simp add: nth_append)
next
  case (Some j)
  then obtain r where e: "e = Settle j r" and j: "j < length (pending s)"
    and a: "accepts (pending s ! j) r"
    by (cases e) (auto split: if_splits)
  from Some assms(2) have jk: "j \<noteq> k" by simp
  obtain new where n: "pending (step e s) = drop_nth j (pending s) @ new"
    using e j a resume_pending [of "pending s ! j" r "s\<lparr>pending := drop_nth j (pending s)\<rparr>"]
    by auto
  show ?thesis
    using drop_nth_other [OF j assms(1) jk] n Some by (simp add: nth_append)
qed

lemma follow_keeps:
  "follow es k s = Some (k', s') \<Longrightarrow> k < length (pending s) \<Longrightarrow>
     s' = run es s \<and> k' < length (pending s') \<and> pending s' ! k' = pending s ! k"
proof (induction es arbitrary: k s)
  case Nil
  then show ?case by simp
next
  case (Cons e es)
  from Cons.prems(1) have ne: "settles e s \<noteq> Some k"
    and f: "follow es (shift (settles e s) k) (step e s) = Some (k', s')"
    by (auto split: if_splits)
  from step_keeps_item [OF Cons.prems(2) ne] Cons.IH [OF f]
  show ?case by (auto simp del: step.simps)
qed

text \<open>The stop called with the record button, end to end. The button is clicked in a
  Recording state \<open>s\<close>; any events \<open>evs1\<close> come before the capture of that stop is
  finalised, and any events \<open>evs2\<close> before its transcription answers (speaker changes,
  pushes, other handlers and their responses). When the transcription succeeds with a
  text, the message is added with the speaker that was active in \<open>s\<close>.\<close>

lemma button_stop_speaker:
  assumes rec: "isRecording s" "\<not> isProcessing s" "audioRecorderRef s \<noteq> None"
    and f1: "follow evs1 (length (pending s)) (step RecordButtonClick s) = Some (k1, t1)"
    and f2: "follow evs2 (length (pending t1) - 1) (step (Settle k1 Fulfilled) t1) = Some (k2, t2)"
  shows "t2 = run (RecordButtonClick # evs1 @ Settle k1 Fulfilled # evs2) s
     \<and> calls (step (Settle k2 (Transcription True (Some txt))) t2)
         = calls t2 @ [AddConversationMessage txt (currentSpeaker s)]"
proof -
  let ?c = "render_closure s"
  have p0: "pending (step RecordButtonClick s) = pending s @ [AwaitStopRecording ?c]"
    using rec by (simp add: handler_defs split: option.splits)
  have k0: "length (pending s) < length (pending (step RecordButtonClick s))"
    and i0: "pending (step RecordButtonClick s) ! length (pending s) = AwaitStopRecording ?c"
    using p0 by (simp_all del: step.simps)
  from follow_keeps [OF f1 k0] i0
  have t1: "t1 = run evs1 (step RecordButtonClick s)" "k1 < length (pending t1)"
    "pending t1 ! k1 = AwaitStopRecording ?c"
    by (auto simp del: step.simps)
  have p1: "pending (step (Settle k1 Fulfilled) t1) = drop_nth k1 (pending t1) @ [AwaitTranscribe ?c]"
    using t1(2,3) by (simp add: await_def)
  have l1: "length (drop_nth k1 (pending t1)) = length (pending t1) - 1"
    using t1(2) by (simp add: drop_nth_def min_def)
  have k1: "length (pending t1) - 1 < length (pending (step (Settle k1 Fulfilled) t1))"
    and i1: "pending (step (Settle k1 Fulfilled) t1) ! (length (pending t1) - 1) = AwaitTranscribe ?c"
    using p1 l1 by (simp_all del: step.simps add: nth_append)
  from follow_keeps [OF f2 k1] i1
  have t2: "t2 = run evs2 (step (Settle k1 Fulfilled) t1)" "k2 < length (pending t2)"
    "pending t2 ! k2 = AwaitTranscribe ?c"
    by (auto simp del: step.simps)
  have "calls (step (Settle k2 (Transcription True (Some txt))) t2)
         = calls t2 @ [AddConversationMessage txt (currentSpeaker s)]"
    using t2(2,3) by (simp add: await_def render_closure_def)
  moreover have "t2 = run (RecordButtonClick # evs1 @ Settle k1 Fulfilled # evs2) s"
    using t1(1) t2(1) by (simp add: run_append del: step.simps)
  ultimately show ?thesis by simp
qed

text \<open>An instance: the interviewee's recording is stopped with the button; the host
  pushes a speaker change before the capture is finalised, and a message and the answer
  of a speaker toggle of its own before the transcription answers. The message is added
  for the interviewee, who was active at the stop, while the interviewer is active.\<close>

lemma button_stop_speaker_example:
  "currentSpeaker (run recording mounted) = interviewee
   \<and> currentSpeaker (run (recording @ [RecordButtonClick, SpeakerChanged interviewer,
        Settle 0 Fulfilled, MessageAdded q1]) mounted) = interviewer
   \<and> calls (run (recording @ [RecordButtonClick, SpeakerChanged interviewer,
        Settle 0 Fulfilled, MessageAdded q1,
        Settle 0 (Transcription True (Some ''I use retries.''))]) mounted)
       = [GetConversation, StartRecording, StopRecording, TranscribeAudio,
          AddConversationMessage ''I use retries.'' interviewee]"
proof -
  let ?s = "run recording mounted"
  let ?t1 = "run (recording @ [RecordButtonClick, SpeakerChanged interviewer]) mounted"
  let ?t2 = "run (recording @ [RecordButtonClick, SpeakerChanged interviewer,
        Settle 0 Fulfilled, MessageAdded q1]) mounted"
  have r: "isRecording ?s" "\<not> isProcessing ?s" "audioRecorderRef ?s \<noteq> None"
    "currentSpeaker ?s = interviewee"
    by (simp_all add: handler_defs example_defs)
  have f1: "follow [SpeakerChanged interviewer] (length (pending ?s)) (step RecordButtonClick ?s)
              = Some (0, ?t1)"
    by (simp add: handler_defs example_defs)
  have f2: "follow [MessageAdded q1] (length (pending ?t1) - 1) (step (Settle 0 Fulfilled) ?t1)
              = Some (0, ?t2)"
    by (simp add: handler_defs example_defs)
  have c: "calls ?t2 = [GetConversation, StartRecording, StopRecording, TranscribeAudio]"
    and sp: "currentSpeaker ?t2 = interviewer"
    by (simp_all add: handler_defs example_defs)
  from button_stop_speaker [OF r(1,2,3) f1 f2, of "''I use retries.''"] r(4) c sp
  show ?thesis by (simp add: run_append del: step.simps)
qed


end
